theory Spec2Isabelle
  imports Main "HOL-Library.List_Lexorder" "HOL-Library.Multiset"
begin

section \<open>Values and strings of the plate registry\<close>

text \<open>
  The registry of \<^verbatim>\<open>vanity-monitor/app.js\<close> keeps plain objects whose properties are
  read with \<^verbatim>\<open>p.field || default\<close>. A property is modelled by what the code can tell
  apart: it is missing (\<open>Undefined\<close>), it is \<^verbatim>\<open>null\<close>, or it holds a string. Numbers,
  booleans and nested objects in these properties are outside the model. Strings are
  lists of 8-bit characters; the model is exact for ASCII text.
\<close>

datatype jsval = Undefined | Null | Str string

text \<open>\<^verbatim>\<open>v || d\<close> for a string default \<open>d\<close>: missing, null and the empty string are falsy.\<close>

definition or_else :: "jsval \<Rightarrow> string \<Rightarrow> string" where
  "or_else v d = (case v of Str s \<Rightarrow> (if s = [] then d else s) | _ \<Rightarrow> d)"

definition truthy :: "jsval \<Rightarrow> bool" where
  "truthy v = (case v of Str s \<Rightarrow> s \<noteq> [] | _ \<Rightarrow> False)"

text \<open>\<^verbatim>\<open>String.prototype.toUpperCase\<close> on ASCII: \<open>a\<close>..\<open>z\<close> go to \<open>A\<close>..\<open>Z\<close>.\<close>

definition toUpperCase_char :: "char \<Rightarrow> char" where
  "toUpperCase_char c =
     (let n = (of_char c :: nat) in if 97 \<le> n \<and> n \<le> 122 then char_of (n - 32) else c)"

definition toUpperCase :: "string \<Rightarrow> string" where
  "toUpperCase s = map toUpperCase_char s"

text \<open>The character class \<^verbatim>\<open>[A-Z0-9]\<close> of the second \<^verbatim>\<open>replace\<close>.\<close>

definition is_AZ09 :: "char \<Rightarrow> bool" where
  "is_AZ09 c =
     (let n = (of_char c :: nat) in (65 \<le> n \<and> n \<le> 90) \<or> (48 \<le> n \<and> n \<le> 57))"

text \<open>\<^verbatim>\<open>.replace(/O/g,'0')\<close>\<close>

definition replace_O_0 :: "string \<Rightarrow> string" where
  "replace_O_0 s = map (\<lambda>c. if c = CHR ''O'' then CHR ''0'' else c) s"

text \<open>
  \<^verbatim>\<open>function normalizePlateText(s){
    return String(s||"").toUpperCase().replace(/O/g,'0').replace(/[^A-Z0-9]/g,'').slice(0,7); }\<close>
\<close>

definition normalizePlateText :: "jsval \<Rightarrow> string" where
  "normalizePlateText s =
     take 7 (filter is_AZ09 (replace_O_0 (toUpperCase (or_else s []))))"

section \<open>Errors\<close>

text \<open>
  A thrown \<^verbatim>\<open>Error\<close> object: its \<^verbatim>\<open>name\<close> and its \<^verbatim>\<open>message\<close>. \<open>error_toString\<close> is
  \<^verbatim>\<open>Error.prototype.toString\<close>, and \<open>error_note\<close> is the expression
  \<^verbatim>\<open>String(e?.message||e)\<close> of the two \<^verbatim>\<open>catch\<close> blocks.
\<close>

datatype js_error = JsError (ename: string) (message: string)

definition error_toString :: "js_error \<Rightarrow> string" where
  "error_toString e =
     (if ename e = [] then message e
      else if message e = [] then ename e
      else ename e @ '': '' @ message e)"

definition error_note :: "js_error \<Rightarrow> string" where
  "error_note e = (if message e \<noteq> [] then message e else error_toString e)"

text \<open>The en dash of the validation message, as its three UTF-8 bytes.\<close>

definition en_dash :: string where
  "en_dash = [CHR 0xE2, CHR 0x80, CHR 0x93]"

text \<open>
  \<^verbatim>\<open>function validatePlateText(s){ const t=normalizePlateText(s);
    if(!t) throw new Error("plateText must be 1-7 letters/numbers"); return t; }\<close>
  (the source writes an en dash between 1 and 7).
\<close>

definition validatePlateText :: "jsval \<Rightarrow> js_error + string" where
  "validatePlateText s =
     (let t = normalizePlateText s in
      if t = [] then Inl (JsError ''Error'' (''plateText must be 1'' @ en_dash @ ''7 letters/numbers''))
      else Inr t)"

section \<open>Plate records\<close>

record history_entry =
  status :: string
  checkedUtc :: string
  enote :: "string option"

text \<open>
  A plate record. \<open>history\<close> is \<open>None\<close> when the property is missing. The field \<open>enote\<close>
  of a history entry is the optional \<^verbatim>\<open>note\<close> property.
\<close>

record plate =
  plateText :: jsval
  state :: jsval
  selectedVehicleType :: jsval
  selectedKindOfPlate :: jsval
  selectedPlateProgram :: jsval
  selectedPlateProgramID :: jsval
  selectedPlateProgramSubCategory :: jsval
  lastStatus :: jsval
  lastCheckedUtc :: jsval
  history :: "history_entry list option"

text \<open>\<^verbatim>\<open>Array.prototype.join("|")\<close>\<close>

fun join_bar :: "string list \<Rightarrow> string" where
  "join_bar [] = []"
| "join_bar [x] = x"
| "join_bar (x # y # ys) = x @ CHR ''|'' # join_bar (y # ys)"

text \<open>
  \<^verbatim>\<open>function mkKey(p){ return [ (p.plateText||"").toUpperCase(), p.state||"ID",
    p.selectedVehicleType||"PassengerVehicle", p.selectedKindOfPlate||"Personalized",
    p.selectedPlateProgram||"Select", p.selectedPlateProgramID||"",
    p.selectedPlateProgramSubCategory||"Select" ].join("|"); }\<close>
\<close>

definition key_parts :: "plate \<Rightarrow> string list" where
  "key_parts p =
     [toUpperCase (or_else (plateText p) []),
      or_else (state p) ''ID'',
      or_else (selectedVehicleType p) ''PassengerVehicle'',
      or_else (selectedKindOfPlate p) ''Personalized'',
      or_else (selectedPlateProgram p) ''Select'',
      or_else (selectedPlateProgramID p) [],
      or_else (selectedPlateProgramSubCategory p) ''Select'']"

definition mkKey :: "plate \<Rightarrow> string" where
  "mkKey p = join_bar (key_parts p)"

text \<open>
  \<^verbatim>\<open>function markChecked(p,status,note){ const ts=new Date().toISOString();
    p.lastStatus=status; p.lastCheckedUtc=ts; p.history=p.history||[];
    const e={status,checkedUtc:ts}; if(note) e.note=note; p.history.push(e); }\<close>
  The timestamp \<open>ts\<close> read from the clock is an argument; the updated record is returned.
  \<open>history_of\<close> is \<^verbatim>\<open>p.history||[]\<close>.
\<close>

definition history_of :: "plate \<Rightarrow> history_entry list" where
  "history_of p = (case history p of None \<Rightarrow> [] | Some h \<Rightarrow> h)"

definition markChecked :: "string \<Rightarrow> plate \<Rightarrow> string \<Rightarrow> string option \<Rightarrow> plate" where
  "markChecked ts p st nt =
     (let e = \<lparr>status = st, checkedUtc = ts,
               enote = (case nt of None \<Rightarrow> None | Some n \<Rightarrow> if n = [] then None else Some n)\<rparr>
      in p\<lparr>lastStatus := Str st, lastCheckedUtc := Str ts,
            history := Some (history_of p @ [e])\<rparr>)"

section \<open>Storage\<close>

text \<open>
  What \<^verbatim>\<open>JSON.parse\<close> gives on a payload: a syntax error, a value that is not an array,
  or an array of elements. The parser is the platform's; it is an argument of the model.
\<close>

datatype 'a parsed = SyntaxError | NonArray | Array "'a list"

text \<open>
  \<^verbatim>\<open>function loadPlates(){ try{ const raw=localStorage.getItem(STORAGE_KEY);
    if(!raw) return []; const arr=JSON.parse(raw);
    return Array.isArray(arr)?arr:[]; }catch{ return []; } }\<close>
  The argument \<open>item\<close> is what \<^verbatim>\<open>getItem\<close> does: it throws (\<open>Inl\<close>), or returns
  \<^verbatim>\<open>null\<close> (\<open>None\<close>) or the stored text.
\<close>

definition loadPlates :: "(string \<Rightarrow> 'a parsed) \<Rightarrow> js_error + string option \<Rightarrow> 'a list" where
  "loadPlates JSON_parse item =
     (case item of
        Inl e \<Rightarrow> []
      | Inr None \<Rightarrow> []
      | Inr (Some raw) \<Rightarrow>
          if raw = [] then []
          else (case JSON_parse raw of
                  SyntaxError \<Rightarrow> []
                | NonArray \<Rightarrow> []
                | Array arr \<Rightarrow> arr))"

text \<open>
  \<^verbatim>\<open>a.localeCompare(b,"en",{sensitivity:"base"})\<close>: a comparison of collation keys at
  primary strength, which ignores case. On letters and digits (the alphabet of a
  normalized plate text) the key is the text with its case folded, digits before letters.
\<close>

definition collation_key :: "string \<Rightarrow> nat list" where
  "collation_key s = map of_char (toUpperCase s)"

definition localeCompare_base :: "string \<Rightarrow> string \<Rightarrow> int" where
  "localeCompare_base a b =
     (if collation_key a < collation_key b then - 1
      else if collation_key a = collation_key b then 0
      else 1)"

text \<open>The comparator of \<^verbatim>\<open>savePlates\<close>:
  \<^verbatim>\<open>(a,b)=>(a.plateText||"").localeCompare(b.plateText||"","en",{sensitivity:"base"})\<close>\<close>

definition comparePlates :: "plate \<Rightarrow> plate \<Rightarrow> int" where
  "comparePlates a b = localeCompare_base (or_else (plateText a) []) (or_else (plateText b) [])"

text \<open>
  \<^verbatim>\<open>Array.prototype.sort(cmp)\<close>, a stable sort: an element goes before the first
  element it does not exceed, so equal elements keep their order.
\<close>

fun insert_sorted :: "('a \<Rightarrow> 'a \<Rightarrow> int) \<Rightarrow> 'a \<Rightarrow> 'a list \<Rightarrow> 'a list" where
  "insert_sorted cmp x [] = [x]"
| "insert_sorted cmp x (y # ys) =
     (if cmp x y \<le> 0 then x # y # ys else y # insert_sorted cmp x ys)"

fun array_sort :: "('a \<Rightarrow> 'a \<Rightarrow> int) \<Rightarrow> 'a list \<Rightarrow> 'a list" where
  "array_sort cmp [] = []"
| "array_sort cmp (x # xs) = insert_sorted cmp x (array_sort cmp xs)"

text \<open>
  \<^verbatim>\<open>function savePlates(arr){ arr.sort(...);
    localStorage.setItem(STORAGE_KEY, JSON.stringify(arr)); }\<close>
  The result is the array after the sort, which is also the collection written to storage
  (the model keeps the decoded collection: \<^verbatim>\<open>JSON.parse\<close> gives back the modelled
  properties of what \<^verbatim>\<open>JSON.stringify\<close> wrote).
\<close>

definition savePlates :: "plate list \<Rightarrow> plate list" where
  "savePlates arr = array_sort comparePlates arr"

text \<open>
  The order that the spec requires of the stored collection: non-decreasing by plate text
  under a comparison that ignores the case of letters. It is written from these words and
  not from the comparator of the code. \<open>upper_of\<close> pairs every small letter with its
  capital by a table; \<open>caseless_le\<close> compares two texts character by character after that
  pairing, by character code, so that digits come before letters and a proper prefix comes
  first; \<open>text_of\<close> is the plate text of a record, empty when the record has none.
\<close>

definition upper_of :: "char \<Rightarrow> char" where
  "upper_of c =
     (case map_of (zip ''abcdefghijklmnopqrstuvwxyz'' ''ABCDEFGHIJKLMNOPQRSTUVWXYZ'') c of
        None \<Rightarrow> c
      | Some u \<Rightarrow> u)"

fun caseless_le :: "string \<Rightarrow> string \<Rightarrow> bool" where
  "caseless_le [] b = True"
| "caseless_le (x # xs) [] = False"
| "caseless_le (x # xs) (y # ys) =
     ((of_char (upper_of x) :: nat) < of_char (upper_of y) \<or>
      (of_char (upper_of x) :: nat) = of_char (upper_of y) \<and> caseless_le xs ys)"

definition text_of :: "plate \<Rightarrow> string" where
  "text_of p = (case plateText p of Str s \<Rightarrow> s | _ \<Rightarrow> [])"

definition plates_sorted :: "plate list \<Rightarrow> bool" where
  "plates_sorted xs = sorted_wrt (\<lambda>a b. caseless_le (text_of a) (text_of b)) xs"

text \<open>\<^verbatim>\<open>Array.prototype.findIndex\<close>; \<open>None\<close> is the result \<open>-1\<close>.\<close>

fun findIndex :: "('a \<Rightarrow> bool) \<Rightarrow> 'a list \<Rightarrow> nat option" where
  "findIndex P [] = None"
| "findIndex P (x # xs) = (if P x then Some 0 else map_option Suc (findIndex P xs))"

text \<open>
  The object spread \<^verbatim>\<open>{...old, ...entry}\<close>: every property that \<open>entry\<close> has replaces
  that of \<open>old\<close>.
\<close>

definition over :: "jsval \<Rightarrow> jsval \<Rightarrow> jsval" where
  "over old new = (if new = Undefined then old else new)"

definition spread :: "plate \<Rightarrow> plate \<Rightarrow> plate" where
  "spread old entry =
     \<lparr>plateText = over (plateText old) (plateText entry),
      state = over (state old) (state entry),
      selectedVehicleType = over (selectedVehicleType old) (selectedVehicleType entry),
      selectedKindOfPlate = over (selectedKindOfPlate old) (selectedKindOfPlate entry),
      selectedPlateProgram = over (selectedPlateProgram old) (selectedPlateProgram entry),
      selectedPlateProgramID = over (selectedPlateProgramID old) (selectedPlateProgramID entry),
      selectedPlateProgramSubCategory =
        over (selectedPlateProgramSubCategory old) (selectedPlateProgramSubCategory entry),
      lastStatus = over (lastStatus old) (lastStatus entry),
      lastCheckedUtc = over (lastCheckedUtc old) (lastCheckedUtc entry),
      history = (case history entry of None \<Rightarrow> history old | Some h \<Rightarrow> Some h)\<rparr>"

text \<open>
  \<^verbatim>\<open>function upsertPlate(entry){ const list=loadPlates(); const key=mkKey(entry);
    const i=list.findIndex(p=>mkKey(p)===key);
    if(i>=0) list[i]={...list[i],...entry}; else list.push(entry);
    savePlates(list); return list; }\<close>
  \<open>stored\<close> is the collection that \<^verbatim>\<open>loadPlates\<close> returns; the result is the collection
  written back.
\<close>

definition upsertPlate :: "plate list \<Rightarrow> plate \<Rightarrow> plate list" where
  "upsertPlate stored entry =
     (let key = mkKey entry in
      savePlates
        (case findIndex (\<lambda>p. mkKey p = key) stored of
           Some i \<Rightarrow> stored[i := spread (stored ! i) entry]
         | None \<Rightarrow> stored @ [entry]))"

text \<open>
  \<^verbatim>\<open>function deleteByKey(key){ const arr=loadPlates().filter(p=>mkKey(p)!==key);
    savePlates(arr); render(); }\<close>
\<close>

definition deleteByKey :: "plate list \<Rightarrow> string \<Rightarrow> plate list" where
  "deleteByKey stored key = savePlates (filter (\<lambda>p. mkKey p \<noteq> key) stored)"



text \<open>The defaults that the migration and the import write into a record.\<close>

definition fill_defaults :: "plate \<Rightarrow> plate" where
  "fill_defaults p =
     p\<lparr>state := Str (or_else (state p) ''ID''),
       selectedVehicleType := Str (or_else (selectedVehicleType p) ''PassengerVehicle''),
       selectedKindOfPlate := Str (or_else (selectedKindOfPlate p) ''Personalized''),
       selectedPlateProgram := Str (or_else (selectedPlateProgram p) ''Select''),
       selectedPlateProgramID := Str (or_else (selectedPlateProgramID p) []),
       selectedPlateProgramSubCategory :=
         Str (or_else (selectedPlateProgramSubCategory p) ''Select'')\<rparr>"

text \<open>
  The body of the loop of \<^verbatim>\<open>migrate\<close>:
  \<^verbatim>\<open>const n=normalizePlateText(p.plateText);
    if(n!==p.plateText){p.plateText=n; changed=true;} p.state = p.state || "ID"; ...\<close>
  The second component says whether this record set \<^verbatim>\<open>changed\<close>.
\<close>

definition migrate_record :: "plate \<Rightarrow> plate \<times> bool" where
  "migrate_record p =
     (let n = normalizePlateText (plateText p) in
      if Str n \<noteq> plateText p then (fill_defaults (p\<lparr>plateText := Str n\<rparr>), True)
      else (fill_defaults p, False))"

text \<open>
  \<^verbatim>\<open>(function migrate(){ const list=loadPlates(); let changed=false;
    for(const p of list){ ... } if(changed) savePlates(list); })();\<close>
  The result is the collection written, or \<open>None\<close> when nothing is written.
\<close>

definition migrate :: "plate list \<Rightarrow> plate list option" where
  "migrate stored =
     (let rs = map migrate_record stored in
      if list_ex snd rs then Some (savePlates (map fst rs)) else None)"

text \<open>
  The import handler, after the file is read:
  \<^verbatim>\<open>const arr=JSON.parse(text); if(!Array.isArray(arr)) throw new Error("Invalid JSON");
    arr.forEach(p=>{ if(p.plateText) p.plateText=normalizePlateText(p.plateText);
      p.state = p.state || "ID"; ... }); savePlates(arr);\<close>
\<close>

definition import_record :: "plate \<Rightarrow> plate" where
  "import_record p =
     fill_defaults
       (if truthy (plateText p) then p\<lparr>plateText := Str (normalizePlateText (plateText p))\<rparr>
        else p)"

definition importPlates :: "(string \<Rightarrow> plate parsed) \<Rightarrow> string \<Rightarrow> plate list option" where
  "importPlates JSON_parse contents =
     (case JSON_parse contents of
        Array arr \<Rightarrow> Some (savePlates (map import_record arr))
      | _ \<Rightarrow> None)"

section \<open>Due policy\<close>

text \<open>
  The \<^verbatim>\<open>Date\<close> operations that \<^verbatim>\<open>isDue\<close> uses are the platform's: \<open>Date_parse\<close> is the
  time value of \<^verbatim>\<open>new Date(string)\<close> in milliseconds (\<open>None\<close> for an invalid date, whose
  \<^verbatim>\<open>getTime()\<close> is \<^verbatim>\<open>NaN\<close>), \<open>getMonth\<close> and \<open>getFullYear\<close> read a time value in the
  local time zone.
\<close>

record calendar =
  Date_parse :: "string \<Rightarrow> int option"
  getMonth :: "int \<Rightarrow> nat"
  getFullYear :: "int \<Rightarrow> int"

text \<open>
  \<^verbatim>\<open>function isDue(p){
    if(!p.lastCheckedUtc) return true;
    const last = new Date(p.lastCheckedUtc);
    if(Number.isNaN(last.getTime())) return true;
    const now = new Date();
    return last.getMonth() !== now.getMonth() || last.getFullYear() !== now.getFullYear(); }\<close>
  \<open>now\<close> is the time value of \<^verbatim>\<open>new Date()\<close>.
\<close>

definition isDue :: "calendar \<Rightarrow> int \<Rightarrow> plate \<Rightarrow> bool" where
  "isDue cal now p =
     (case lastCheckedUtc p of
        Str s \<Rightarrow>
          if s = [] then True
          else (case Date_parse cal s of
                  None \<Rightarrow> True
                | Some lastT \<Rightarrow>
                    getMonth cal lastT \<noteq> getMonth cal now \<or>
                    getFullYear cal lastT \<noteq> getFullYear cal now)
      | _ \<Rightarrow> True)"

text \<open>
  The older copy of the script (\<^verbatim>\<open>REFRESH_CUTOFF_HOURS = 24\<close>) has a rolling policy:
  \<^verbatim>\<open>function isDue(p){ if(!p.lastCheckedUtc) return true;
    const t=Date.parse(p.lastCheckedUtc); if(Number.isNaN(t)) return true;
    return (Date.now()-t)>=REFRESH_CUTOFF_HOURS*3600*1000; }\<close>
\<close>

definition isDue_rolling :: "calendar \<Rightarrow> int \<Rightarrow> plate \<Rightarrow> bool" where
  "isDue_rolling cal now p =
     (case lastCheckedUtc p of
        Str s \<Rightarrow>
          if s = [] then True
          else (case Date_parse cal s of
                  None \<Rightarrow> True
                | Some t \<Rightarrow> now - t \<ge> 24 * 3600 * 1000)
      | _ \<Rightarrow> True)"

subsection \<open>A reference calendar: UTC and the format of \<^verbatim>\<open>toISOString\<close>\<close>

text \<open>
  The civil date of a day number (days since 1970-01-01) in the proleptic Gregorian
  calendar: year, month (1 to 12) and day of the month.
\<close>

definition civil_from_days :: "int \<Rightarrow> int \<times> int \<times> int" where
  "civil_from_days z0 =
     (let z = z0 + 719468;
          era = z div 146097;
          doe = z - era * 146097;
          yoe = (doe - doe div 1460 + doe div 36524 - doe div 146096) div 365;
          doy = doe - (365 * yoe + yoe div 4 - yoe div 100);
          mp = (5 * doy + 2) div 153;
          d = doy - (153 * mp + 2) div 5 + 1;
          m = (if mp < 10 then mp + 3 else mp - 9);
          y = yoe + era * 400 + (if m \<le> 2 then 1 else 0)
      in (y, m, d))"

definition days_from_civil :: "int \<Rightarrow> int \<Rightarrow> int \<Rightarrow> int" where
  "days_from_civil y0 m d =
     (let y = (if m \<le> 2 then y0 - 1 else y0);
          era = y div 400;
          yoe = y - era * 400;
          doy = (153 * (if m > 2 then m - 3 else m + 9) + 2) div 5 + d - 1;
          doe = yoe * 365 + yoe div 4 - yoe div 100 + doy
      in era * 146097 + doe - 719468)"

definition ms_per_day :: int where
  "ms_per_day = 86400000"

definition utc_getMonth :: "int \<Rightarrow> nat" where
  "utc_getMonth t = nat (fst (snd (civil_from_days (t div ms_per_day))) - 1)"

definition utc_getFullYear :: "int \<Rightarrow> int" where
  "utc_getFullYear t = fst (civil_from_days (t div ms_per_day))"

text \<open>Reading the text \<^verbatim>\<open>YYYY-MM-DDTHH:mm:ss.sssZ\<close> that \<^verbatim>\<open>toISOString\<close> writes.\<close>

definition digit_of :: "char \<Rightarrow> int option" where
  "digit_of c =
     (let n = (of_char c :: nat) in if 48 \<le> n \<and> n \<le> 57 then Some (int n - 48) else None)"

fun number_of :: "int \<Rightarrow> string \<Rightarrow> int option" where
  "number_of acc [] = Some acc"
| "number_of acc (c # cs) =
     (case digit_of c of None \<Rightarrow> None | Some d \<Rightarrow> number_of (10 * acc + d) cs)"

definition parse_iso :: "string \<Rightarrow> int option" where
  "parse_iso s =
     (if length s = 24 \<and> s ! 4 = CHR ''-'' \<and> s ! 7 = CHR ''-'' \<and> s ! 10 = CHR ''T'' \<and>
         s ! 13 = CHR '':'' \<and> s ! 16 = CHR '':'' \<and> s ! 19 = CHR ''.'' \<and> s ! 23 = CHR ''Z''
      then
        (case (number_of 0 (take 4 s), number_of 0 (take 2 (drop 5 s)),
               number_of 0 (take 2 (drop 8 s)), number_of 0 (take 2 (drop 11 s)),
               number_of 0 (take 2 (drop 14 s)), number_of 0 (take 2 (drop 17 s)),
               number_of 0 (take 3 (drop 20 s))) of
           (Some y, Some mo, Some d, Some h, Some mi, Some sec, Some ms) \<Rightarrow>
             if 1 \<le> mo \<and> mo \<le> 12 \<and> 1 \<le> d \<and> civil_from_days (days_from_civil y mo d) = (y, mo, d) \<and>
                h < 24 \<and> mi < 60 \<and> sec < 60
             then Some (days_from_civil y mo d * ms_per_day +
                        ((h * 60 + mi) * 60 + sec) * 1000 + ms)
             else None
         | _ \<Rightarrow> None)
      else None)"

definition utc_calendar :: calendar where
  "utc_calendar =
     \<lparr>Date_parse = parse_iso, getMonth = utc_getMonth, getFullYear = utc_getFullYear\<rparr>"

section \<open>Availability checks\<close>

text \<open>
  \<^verbatim>\<open>function basePayloadID(p){ return { plateText:p.plateText,
    selectedVehicleType:"PassengerVehicle", selectedKindOfPlate:"Personalized",
    selectedPlateProgram:"Select", selectedPlateProgramID:"",
    selectedPlateProgramSubCategory:"Select" }; }\<close>
\<close>

definition basePayloadID :: "plate \<Rightarrow> jsval \<times> string list" where
  "basePayloadID p =
     (plateText p, [''PassengerVehicle'', ''Personalized'', ''Select'', [], ''Select''])"

text \<open>
  The remote side of a run. \<open>postValidateID\<close> and \<open>postValidateCA\<close> stand for the two
  requests: what the \<open>k\<close>-th check of a run gets from the proxy for a payload, either a
  thrown error or the boolean \<^verbatim>\<open>!!data.Available\<close>. \<open>toISOString_now\<close> is the clock text
  that the \<open>k\<close>-th call of \<^verbatim>\<open>markChecked\<close> reads, \<open>Date_now\<close> the time value that the
  \<open>a\<close>-th call of \<^verbatim>\<open>isDue\<close> reads, \<open>refreshBtn\<close> whether the page has the
  \<^verbatim>\<open>#refresh\<close> button.
\<close>

record remote =
  postValidateID :: "nat \<Rightarrow> jsval \<times> string list \<Rightarrow> js_error + bool"
  postValidateCA :: "nat \<Rightarrow> jsval \<Rightarrow> js_error + bool"
  toISOString_now :: "nat \<Rightarrow> string"
  Date_now :: "nat \<Rightarrow> int"
  refreshBtn :: bool

text \<open>
  \<^verbatim>\<open>async function checkAvailability(p){
    if ((p.state||"ID") === "CA") { const a = await postValidateCA(p.plateText);
      return a ? "Available" : "Unavailable"; }
    else { const a = await postValidateID(basePayloadID(p));
      return a ? "Available" : "Unavailable"; } }\<close>
\<close>

definition availability :: "bool \<Rightarrow> string" where
  "availability a = (if a then ''Available'' else ''Unavailable'')"

definition checkAvailability :: "remote \<Rightarrow> nat \<Rightarrow> plate \<Rightarrow> js_error + string" where
  "checkAvailability env k p =
     (if or_else (state p) ''ID'' = ''CA''
      then (case postValidateCA env k (plateText p) of
              Inl e \<Rightarrow> Inl e | Inr a \<Rightarrow> Inr (availability a))
      else (case postValidateID env k (basePayloadID p) of
              Inl e \<Rightarrow> Inl e | Inr a \<Rightarrow> Inr (availability a)))"

text \<open>
  One check of a record, as the refresh loop, the tile refresh and the add dialog write it:
  \<^verbatim>\<open>try{ const status = await checkAvailability(p); markChecked(p, status); }
    catch(e){ markChecked(p,"Error",String(e?.message||e)); }\<close>
\<close>

definition check_and_mark :: "remote \<Rightarrow> nat \<Rightarrow> plate \<Rightarrow> plate" where
  "check_and_mark env k p =
     (case checkAvailability env k p of
        Inr st \<Rightarrow> markChecked (toISOString_now env k) p st None
      | Inl e \<Rightarrow> markChecked (toISOString_now env k) p ''Error'' (Some (error_note e)))"

section \<open>Refresh runs\<close>

text \<open>
  The objects that \<^verbatim>\<open>loadPlates\<close> returns live in \<open>heap\<close>, addressed by their position
  at load time. \<open>all_arr\<close> is the array \<^verbatim>\<open>all\<close> of references to them, which
  \<^verbatim>\<open>savePlates(all)\<close> sorts in place; \<open>saved\<close> are the collections written to storage,
  oldest first; \<open>shown\<close> are the texts given to \<^verbatim>\<open>setRunStatus\<close> during the run
  (\<open>Progress i n\<close> is \<^verbatim>\<open>i/n\<close>); \<open>i_count\<close> is the counter \<^verbatim>\<open>i\<close>.
\<close>

datatype run_status = Progress nat nat | UpToDate | Done

record run_state =
  heap :: "plate list"
  all_arr :: "nat list"
  saved :: "plate list list"
  shown :: "run_status list"
  i_count :: nat

text \<open>
  \<^verbatim>\<open>const targets=force?all:all.filter(isDue);\<close> With \<^verbatim>\<open>force\<close> the array \<^verbatim>\<open>targets\<close> is
  the array \<^verbatim>\<open>all\<close> itself; otherwise it is a new array of references.
\<close>

datatype targets = SameAsAll | Filtered "nat list"

definition targets_of :: "targets \<Rightarrow> run_state \<Rightarrow> nat list" where
  "targets_of tg st = (case tg of SameAsAll \<Rightarrow> all_arr st | Filtered ts \<Rightarrow> ts)"

text \<open>\<^verbatim>\<open>savePlates(all)\<close> on the array of references.\<close>

definition save_all :: "run_state \<Rightarrow> run_state" where
  "save_all st =
     (let arr = array_sort (\<lambda>x y. comparePlates (heap st ! x) (heap st ! y)) (all_arr st)
      in st\<lparr>all_arr := arr, saved := saved st @ [map (\<lambda>a. heap st ! a) arr]\<rparr>)"

text \<open>
  The body of the loop for the target at address \<open>a\<close>, \<open>n\<close> being \<^verbatim>\<open>targets.length\<close>:
  \<^verbatim>\<open>try{ const status = await checkAvailability(p); markChecked(p, status); }
    catch(e){ markChecked(p,"Error",String(e?.message||e)); }
    savePlates(all); render(); i++; setRunStatus(`${i}/${targets.length}`);
    if(i<targets.length) await sleep(CHECK_DELAY_MS);\<close>
  Rendering and the delay change nothing of the state that is modelled.
\<close>

definition loop_body :: "remote \<Rightarrow> nat \<Rightarrow> nat \<Rightarrow> run_state \<Rightarrow> run_state" where
  "loop_body env n a st =
     (let k = i_count st;
          st1 = save_all (st\<lparr>heap := (heap st)[a := check_and_mark env k (heap st ! a)]\<rparr>)
      in st1\<lparr>i_count := Suc k, shown := shown st1 @ [Progress (Suc k) n]\<rparr>)"

text \<open>
  \<^verbatim>\<open>for(const p of targets){ ... }\<close>: the array iterator reads \<^verbatim>\<open>targets[k]\<close> and the
  length of \<^verbatim>\<open>targets\<close> at every step, from the array as it is then.
\<close>

function for_of :: "remote \<Rightarrow> targets \<Rightarrow> nat \<Rightarrow> run_state \<Rightarrow> run_state" where
  "for_of env tg k st =
     (let ts = targets_of tg st in
      if k < length ts then for_of env tg (Suc k) (loop_body env (length ts) (ts ! k) st)
      else st)"
  by pat_completeness auto

text \<open>
  \<^verbatim>\<open>async function refreshDue({force=false}={}){
    const btn=$("#refresh"); if(!btn) return;
    const all=loadPlates();
    const targets=force?all:all.filter(isDue);
    if(targets.length===0){ setRunStatus("Up to date"); ...; return; }
    ...; setRunStatus(`0/${targets.length}`);
    let i=0;
    for(const p of targets){ ... }
    ...; setRunStatus("Done"); ... }\<close>
  \<open>stored\<close> is the collection that \<^verbatim>\<open>loadPlates\<close> returns.
\<close>

definition refreshDue :: "calendar \<Rightarrow> remote \<Rightarrow> bool \<Rightarrow> plate list \<Rightarrow> run_state" where
  "refreshDue cal env force stored =
     (let all = [0..<length stored];
          st0 = \<lparr>heap = stored, all_arr = all, saved = [], shown = [], i_count = 0\<rparr>
      in if \<not> refreshBtn env then st0
         else
           (let tg = (if force then SameAsAll
                      else Filtered (filter (\<lambda>a. isDue cal (Date_now env a) (stored ! a)) all));
                n = length (targets_of tg st0)
            in if n = 0 then st0\<lparr>shown := [UpToDate]\<rparr>
               else (let st1 = for_of env tg 0 (st0\<lparr>shown := [Progress 0 n]\<rparr>)
                     in st1\<lparr>shown := shown st1 @ [Done]\<rparr>)))"

text \<open>The records of a run, in the order of the array \<^verbatim>\<open>all\<close>.\<close>

definition collection :: "run_state \<Rightarrow> plate list" where
  "collection st = map (\<lambda>a. heap st ! a) (all_arr st)"

text \<open>
  The refresh button of one tile:
  \<^verbatim>\<open>const p=loadPlates().find(x=>mkKey(x)===key); if(!p) return;
    try { const status = await checkAvailability(p); markChecked(p, status); }
    catch(err) { markChecked(p, "Error", String(err?.message||err)); }
    upsertPlate(p);\<close>
  The result is the collection written, or \<open>None\<close> when nothing is written.
\<close>

definition refreshTile :: "remote \<Rightarrow> plate list \<Rightarrow> string \<Rightarrow> plate list option" where
  "refreshTile env stored key =
     (case find (\<lambda>x. mkKey x = key) stored of
        None \<Rightarrow> None
      | Some p \<Rightarrow> Some (upsertPlate stored (check_and_mark env 0 p)))"

text \<open>
  The submit button of the add dialog:
  \<^verbatim>\<open>try{ const entry={ plateText:validatePlateText($("#m_plateText").value),
      state: ($("#m_state").value || "ID"), selectedVehicleType:"PassengerVehicle",
      selectedKindOfPlate:"Personalized", selectedPlateProgram:"Select",
      selectedPlateProgramID:"", selectedPlateProgramSubCategory:"Select",
      lastStatus:"Unknown", lastCheckedUtc:null, history:[] };
    try{ const status = await checkAvailability(entry); markChecked(entry, status); ... }
    catch(e){ markChecked(entry,"Error",String(e?.message||e)); ... }
    upsertPlate(entry); ... }catch(e){ msg.textContent="Error: "+e.message; }\<close>
  The result is the collection written (\<open>None\<close> when nothing is written) and the message
  shown when the submission is rejected.
\<close>

definition new_entry :: "string \<Rightarrow> jsval \<Rightarrow> plate" where
  "new_entry t m_state =
     \<lparr>plateText = Str t, state = Str (or_else m_state ''ID''),
      selectedVehicleType = Str ''PassengerVehicle'', selectedKindOfPlate = Str ''Personalized'',
      selectedPlateProgram = Str ''Select'', selectedPlateProgramID = Str [],
      selectedPlateProgramSubCategory = Str ''Select'',
      lastStatus = Str ''Unknown'', lastCheckedUtc = Null, history = Some []\<rparr>"

definition submitPlate ::
  "remote \<Rightarrow> plate list \<Rightarrow> jsval \<Rightarrow> jsval \<Rightarrow> plate list option \<times> string option" where
  "submitPlate env stored m_plateText m_state =
     (case validatePlateText m_plateText of
        Inl e \<Rightarrow> (None, Some (''Error: '' @ message e))
      | Inr t \<Rightarrow> (Some (upsertPlate stored (check_and_mark env 0 (new_entry t m_state))), None))"

section \<open>Conditions on entries, and sample data\<close>

text \<open>
  An entry is \<open>complete\<close> when it has all seven properties that the key reads, and
  \<open>bar_free\<close> when no part of its key contains the separator of the key.
\<close>

definition complete :: "plate \<Rightarrow> bool" where
  "complete e =
     (plateText e \<noteq> Undefined \<and> state e \<noteq> Undefined \<and> selectedVehicleType e \<noteq> Undefined \<and>
      selectedKindOfPlate e \<noteq> Undefined \<and> selectedPlateProgram e \<noteq> Undefined \<and>
      selectedPlateProgramID e \<noteq> Undefined \<and> selectedPlateProgramSubCategory e \<noteq> Undefined)"

definition bar_free :: "plate \<Rightarrow> bool" where
  "bar_free e = list_all (\<lambda>s. CHR ''|'' \<notin> set s) (key_parts e)"

definition bars :: "string \<Rightarrow> nat" where
  "bars s = length (filter (\<lambda>c. c = CHR ''|'') s)"

text \<open>A record that has a plate text and nothing else.\<close>

definition bare :: "string \<Rightarrow> plate" where
  "bare t =
     \<lparr>plateText = Str t, state = Undefined, selectedVehicleType = Undefined,
      selectedKindOfPlate = Undefined, selectedPlateProgram = Undefined,
      selectedPlateProgramID = Undefined, selectedPlateProgramSubCategory = Undefined,
      lastStatus = Undefined, lastCheckedUtc = Undefined, history = None\<rparr>"

text \<open>
  Two stored records and an entry whose keys meet through the separator: the key of
  \<open>collide_entry\<close> is the key of \<open>collide_first\<close>, and merging the entry onto
  \<open>collide_first\<close> gives the identity of \<open>collide_second\<close>.
\<close>

definition collide_first :: plate where
  "collide_first =
     \<lparr>plateText = Str ''A'', state = Str ''B'', selectedVehicleType = Str ''ID'',
      selectedKindOfPlate = Str ''PassengerVehicle'', selectedPlateProgram = Str ''Personalized'',
      selectedPlateProgramID = Str ''Select'', selectedPlateProgramSubCategory = Str ''|Select'',
      lastStatus = Undefined, lastCheckedUtc = Undefined, history = None\<rparr>"

definition collide_second :: plate where
  "collide_second = collide_first\<lparr>plateText := Str ''A|B''\<rparr>"

definition collide_entry :: plate where
  "collide_entry = bare ''A|B''"

text \<open>A parser for three sample payloads.\<close>

definition sample_parse :: "string \<Rightarrow> nat parsed" where
  "sample_parse s =
     (if s = ''[7]'' then Array [7] else if s = ''{}'' then NonArray else SyntaxError)"

text \<open>
  The collection of a run over \<open>stored\<close> in which the first \<open>j\<close> records have been
  checked, the \<open>k\<close>-th record by the \<open>k\<close>-th check of the run; and the state of a forced
  run after \<open>k\<close> passes of its loop when no save changes the order.
\<close>

definition checked_upto :: "remote \<Rightarrow> plate list \<Rightarrow> nat \<Rightarrow> plate list" where
  "checked_upto env stored j =
     map (\<lambda>k. if k < j then check_and_mark env k (stored ! k) else stored ! k) [0..<length stored]"

definition after_checks :: "remote \<Rightarrow> plate list \<Rightarrow> nat \<Rightarrow> run_state" where
  "after_checks env stored k =
     \<lparr>heap = checked_upto env stored k, all_arr = [0..<length stored],
      saved = map (checked_upto env stored) [1..<Suc k],
      shown = Progress 0 (length stored) # map (\<lambda>i. Progress i (length stored)) [1..<Suc k],
      i_count = k\<rparr>"

text \<open>
  A sample run: the first check answers available, the second fails with an error, the
  third answers unavailable.
\<close>

definition sample_remote :: remote where
  "sample_remote =
     \<lparr>postValidateID = (\<lambda>k p. if k = 1 then Inl (JsError ''Error'' ''HTTP 500'') else Inr (k = 0)),
      postValidateCA = (\<lambda>k p. Inr True),
      toISOString_now = (\<lambda>k. if k = 0 then ''2024-02-01T00:00:00.000Z''
          else if k = 1 then ''2024-02-01T00:00:01.200Z'' else ''2024-02-01T00:00:02.400Z''),
      Date_now = (\<lambda>a. 1706745600000),
      refreshBtn = True\<rparr>"

definition sample_store :: "plate list" where
  "sample_store = [bare ''A'', bare ''B'', bare ''C'']"

section \<open>Properties\<close>

subsection \<open>Sorting\<close>

lemma length_insert_sorted: "length (insert_sorted cmp x xs) = Suc (length xs)"
  by (induction xs) auto

lemma length_array_sort: "length (array_sort cmp xs) = length xs"
  by (induction xs) (auto simp: length_insert_sorted)

termination for_of
proof (relation "measure (\<lambda>(env, tg, k, st). length (targets_of tg st) - k)")
  show "wf (measure (\<lambda>(env, tg, k, st). length (targets_of tg st) - k))"
    by simp
next
  fix env tg k st ts
  assume ts: "ts = targets_of tg st" and k: "k < length ts"
  have "length (targets_of tg (loop_body env (length ts) (ts ! k) st)) = length ts"
    by (cases tg) (simp_all add: ts targets_of_def loop_body_def save_all_def Let_def
        length_array_sort)
  with k show "((env, tg, Suc k, loop_body env (length ts) (ts ! k) st), (env, tg, k, st))
      \<in> measure (\<lambda>(env, tg, k, st). length (targets_of tg st) - k)"
    by (simp add: ts)
qed

declare for_of.simps [simp del]

subsection \<open>Normalization\<close>

lemma toUpperCase_char_AZ09: "is_AZ09 c \<Longrightarrow> toUpperCase_char c = c"
  by (auto simp: is_AZ09_def toUpperCase_char_def Let_def)

lemma or_else_Str_self: "or_else (Str s) [] = s"
  by (simp add: or_else_def)

lemma replace_O_0_not_O: "c \<in> set (replace_O_0 s) \<Longrightarrow> c \<noteq> CHR ''O''"
  by (auto simp: replace_O_0_def)

lemma normalizePlateText_chars:
  "c \<in> set (normalizePlateText v) \<Longrightarrow> is_AZ09 c \<and> c \<noteq> CHR ''O''"
proof -
  assume "c \<in> set (normalizePlateText v)"
  then have "c \<in> set (filter is_AZ09 (replace_O_0 (toUpperCase (or_else v []))))"
    unfolding normalizePlateText_def by (rule in_set_takeD)
  then show ?thesis
    by (auto dest: replace_O_0_not_O)
qed

lemma normalizePlateText_length: "length (normalizePlateText v) \<le> 7"
  by (simp add: normalizePlateText_def)

lemma normalizePlateText_fixed:
  assumes chars: "\<And>c. c \<in> set t \<Longrightarrow> is_AZ09 c \<and> c \<noteq> CHR ''O''" and len: "length t \<le> 7"
  shows "normalizePlateText (Str t) = t"
proof -
  have up: "toUpperCase t = t"
    unfolding toUpperCase_def by (rule map_idI) (simp add: chars toUpperCase_char_AZ09)
  have rep: "replace_O_0 t = t"
    unfolding replace_O_0_def by (rule map_idI) (simp add: chars)
  have fil: "filter is_AZ09 t = t"
    by (simp add: chars)
  show ?thesis
    by (simp add: normalizePlateText_def or_else_Str_self up rep fil len)
qed

text \<open>
  Claim C4. Normalizing is idempotent: normalizing a normalized text gives it back. The
  result has at most 7 characters, each of them in \<open>[A-Z0-9]\<close>. The function is total: it
  has a result for every argument, a string or a missing or null value.
\<close>

theorem normalizePlateText_idempotent:
  "normalizePlateText (Str (normalizePlateText v)) = normalizePlateText v \<and>
   length (normalizePlateText v) \<le> 7 \<and>
   list_all is_AZ09 (normalizePlateText v)"
proof (intro conjI)
  show "normalizePlateText (Str (normalizePlateText v)) = normalizePlateText v"
    by (rule normalizePlateText_fixed)
      (auto dest: normalizePlateText_chars simp: normalizePlateText_length)
  show "length (normalizePlateText v) \<le> 7"
    by (rule normalizePlateText_length)
  show "list_all is_AZ09 (normalizePlateText v)"
    by (auto simp: list_all_iff dest: normalizePlateText_chars)
qed

subsection \<open>Keys\<close>

lemma key_parts_update:
  "key_parts (p\<lparr>lastStatus := a, lastCheckedUtc := b, history := h\<rparr>) = key_parts p"
  by (simp add: key_parts_def)

lemma key_parts_markChecked: "key_parts (markChecked ts p st nt) = key_parts p"
  by (simp add: markChecked_def key_parts_def Let_def)

text \<open>
  Claim C6. The key of a record does not change when \<open>lastStatus\<close>, \<open>lastCheckedUtc\<close> or
  \<open>history\<close> change, in particular not under \<open>markChecked\<close>: it is the key of the record
  that keeps the plate text, the state and the five facets and forgets the rest.
\<close>

theorem mkKey_stable:
  "mkKey (p\<lparr>lastStatus := a, lastCheckedUtc := b, history := h\<rparr>) = mkKey p \<and>
   mkKey (markChecked ts p st nt) = mkKey p \<and>
   mkKey p = mkKey \<lparr>plateText = plateText p, state = state p,
      selectedVehicleType = selectedVehicleType p, selectedKindOfPlate = selectedKindOfPlate p,
      selectedPlateProgram = selectedPlateProgram p,
      selectedPlateProgramID = selectedPlateProgramID p,
      selectedPlateProgramSubCategory = selectedPlateProgramSubCategory p,
      lastStatus = Undefined, lastCheckedUtc = Undefined, history = None\<rparr>"
  by (simp add: mkKey_def key_parts_update key_parts_markChecked) (simp add: key_parts_def)

subsection \<open>Sorting and the stored order\<close>

lemma set_insert_sorted: "set (insert_sorted cmp x xs) = insert x (set xs)"
  by (induction xs) auto

lemma set_array_sort: "set (array_sort cmp xs) = set xs"
  by (induction xs) (auto simp: set_insert_sorted)



lemma insert_sorted_least:
  "sorted_wrt (\<lambda>a b. cmp a b \<le> 0) (x # xs) \<Longrightarrow> insert_sorted cmp x xs = x # xs"
  by (cases xs) auto

lemma array_sort_sorted_id:
  "sorted_wrt (\<lambda>a b. cmp a b \<le> 0) xs \<Longrightarrow> array_sort cmp xs = xs"
proof (induction xs)
  case Nil
  then show ?case by simp
next
  case (Cons x xs)
  then have "array_sort cmp xs = xs" by simp
  with Cons.prems show ?case
    by (simp only: array_sort.simps insert_sorted_least)
qed

lemma insert_sorted_map:
  "map g (insert_sorted (\<lambda>x y. cmp (g x) (g y)) x xs) = insert_sorted cmp (g x) (map g xs)"
  by (induction xs) auto

lemma array_sort_map:
  "map g (array_sort (\<lambda>x y. cmp (g x) (g y)) xs) = array_sort cmp (map g xs)"
  by (induction xs) (auto simp: insert_sorted_map)

lemma sorted_insert_sorted:
  fixes f :: "'a \<Rightarrow> 'k::linorder"
  assumes cmp: "\<And>a b. cmp a b \<le> 0 \<longleftrightarrow> f a \<le> f b"
  shows "sorted (map f xs) \<Longrightarrow> sorted (map f (insert_sorted cmp x xs))"
proof (induction xs)
  case Nil
  then show ?case by simp
next
  case (Cons y ys)
  show ?case
  proof (cases "cmp x y \<le> 0")
    case True
    with Cons.prems cmp show ?thesis by auto
  next
    case False
    then have "f y \<le> f x" using cmp by (meson linear)
    with False Cons show ?thesis
      by (auto simp: set_insert_sorted)
  qed
qed

lemma sorted_array_sort:
  fixes f :: "'a \<Rightarrow> 'k::linorder"
  assumes cmp: "\<And>a b. cmp a b \<le> 0 \<longleftrightarrow> f a \<le> f b"
  shows "sorted (map f (array_sort cmp xs))"
  by (induction xs) (auto intro: sorted_insert_sorted [OF cmp])

lemma distinct_map_insert_sorted:
  "distinct (map f (insert_sorted cmp x xs)) \<longleftrightarrow> f x \<notin> f ` set xs \<and> distinct (map f xs)"
  by (induction xs) (auto simp: set_insert_sorted)

lemma distinct_map_array_sort:
  "distinct (map f (array_sort cmp xs)) \<longleftrightarrow> distinct (map f xs)"
  by (induction xs) (auto simp: distinct_map_insert_sorted set_array_sort)

lemma comparePlates_le:
  "comparePlates a b \<le> 0 \<longleftrightarrow>
   collation_key (or_else (plateText a) []) \<le> collation_key (or_else (plateText b) [])"
  by (auto simp: comparePlates_def localeCompare_base_def)

lemma upper_of_toUpperCase_char: "upper_of c = toUpperCase_char c"
proof (cases c)
  case (Char b0 b1 b2 b3 b4 b5 b6 b7)
  show ?thesis
    unfolding Char
    by (cases b0; cases b1; cases b2; cases b3; cases b4; cases b5; cases b6; cases b7;
        simp add: upper_of_def toUpperCase_char_def char_of_def bit_iff_odd_drop_bit
          drop_bit_eq_div)
qed

lemma collation_key_le: "collation_key a \<le> collation_key b \<longleftrightarrow> caseless_le a b"
  by (induction a b rule: caseless_le.induct)
    (auto simp: collation_key_def toUpperCase_def upper_of_toUpperCase_char)

lemma or_else_text_of: "or_else (plateText p) [] = text_of p"
  by (simp add: or_else_def text_of_def split: jsval.split)

lemma comparePlates_caseless: "comparePlates a b \<le> 0 \<longleftrightarrow> caseless_le (text_of a) (text_of b)"
  by (simp add: comparePlates_le collation_key_le or_else_text_of)

lemma plates_sorted_cmp: "plates_sorted xs \<longleftrightarrow> sorted_wrt (\<lambda>a b. comparePlates a b \<le> 0) xs"
  by (simp add: plates_sorted_def comparePlates_caseless)

lemma plates_sorted_iff:
  "plates_sorted xs \<longleftrightarrow> sorted (map (\<lambda>p. collation_key (or_else (plateText p) [])) xs)"
  by (simp add: plates_sorted_cmp comparePlates_le sorted_map)

lemma plates_sorted_savePlates: "plates_sorted (savePlates arr)"
  unfolding plates_sorted_iff savePlates_def
  by (rule sorted_array_sort) (rule comparePlates_le)



lemma plates_sorted_same_text:
  "map plateText xs = map plateText ys \<Longrightarrow> plates_sorted xs \<longleftrightarrow> plates_sorted ys"
proof -
  assume eq: "map plateText xs = map plateText ys"
  have "map (\<lambda>p. collation_key (or_else (plateText p) [])) zs =
        map (\<lambda>v. collation_key (or_else v [])) (map plateText zs)" for zs :: "plate list"
    by simp
  with eq show ?thesis
    unfolding plates_sorted_iff by metis
qed

lemma saved_loop_body:
  "saved (loop_body env n a st) =
     saved st @ [savePlates (map (\<lambda>x. (heap st)[a := check_and_mark env (i_count st) (heap st ! a)] ! x)
        (all_arr st))]"
  by (simp add: loop_body_def save_all_def Let_def savePlates_def array_sort_map)

lemma saved_for_of_sorted:
  "list_all plates_sorted (saved st) \<Longrightarrow> list_all plates_sorted (saved (for_of env tg k st))"
proof (induction env tg k st rule: for_of.induct)
  case (1 env tg k st)
  show ?case
  proof (cases "k < length (targets_of tg st)")
    case True
    have "list_all plates_sorted
            (saved (loop_body env (length (targets_of tg st)) (targets_of tg st ! k) st))"
      using "1.prems" by (simp add: saved_loop_body plates_sorted_savePlates)
    with True "1.IH" [OF refl True] show ?thesis
      by (subst for_of.simps) (simp add: Let_def)
  next
    case False
    with "1.prems" show ?thesis
      by (subst for_of.simps) (simp add: Let_def)
  qed
qed

lemma saved_refreshDue_sorted: "list_all plates_sorted (saved (refreshDue cal env force stored))"
  by (simp add: refreshDue_def Let_def saved_for_of_sorted)

lemma plates_sorted_upsertPlate: "plates_sorted (upsertPlate st e)"
  by (simp add: upsertPlate_def Let_def plates_sorted_savePlates)

lemma plates_sorted_migrate: "case migrate stored of None \<Rightarrow> True | Some c \<Rightarrow> plates_sorted c"
  by (simp add: migrate_def Let_def plates_sorted_savePlates)

lemma plates_sorted_importPlates:
  "case importPlates JSON_parse contents of None \<Rightarrow> True | Some c \<Rightarrow> plates_sorted c"
  by (cases "JSON_parse contents") (simp_all add: importPlates_def plates_sorted_savePlates)

lemma plates_sorted_refreshTile:
  "case refreshTile env stored key of None \<Rightarrow> True | Some c \<Rightarrow> plates_sorted c"
  by (cases "find (\<lambda>x. mkKey x = key) stored")
    (simp_all add: refreshTile_def plates_sorted_upsertPlate)

lemma plates_sorted_submitPlate:
  "case fst (submitPlate env stored m_plateText m_state) of None \<Rightarrow> True
   | Some c \<Rightarrow> plates_sorted c"
  by (cases "validatePlateText m_plateText")
    (simp_all add: submitPlate_def plates_sorted_upsertPlate)

text \<open>
  Claim C5. The collection that \<open>savePlates\<close> writes is non-decreasing by plate text under
  the comparison that ignores case (\<open>plates_sorted\<close>, the order of the spec), for every
  list it is given. Every operation that writes the collection writes it through
  \<open>savePlates\<close>: the upsert, the deletion, the migration and the import (when they write),
  every save of a refresh run, the refresh of one tile and the add dialog. So every
  collection written is sorted.
\<close>

theorem writes_sorted:
  "plates_sorted (savePlates arr) \<and>
   plates_sorted (upsertPlate stored entry) \<and>
   plates_sorted (deleteByKey stored key) \<and>
   (case migrate stored of None \<Rightarrow> True | Some c \<Rightarrow> plates_sorted c) \<and>
   (case importPlates JSON_parse contents of None \<Rightarrow> True | Some c \<Rightarrow> plates_sorted c) \<and>
   list_all plates_sorted (saved (refreshDue cal env force stored)) \<and>
   (case refreshTile env stored key of None \<Rightarrow> True | Some c \<Rightarrow> plates_sorted c) \<and>
   (case fst (submitPlate env stored m_plateText m_state) of None \<Rightarrow> True | Some c \<Rightarrow> plates_sorted c)"
proof (intro conjI)
  show "plates_sorted (deleteByKey stored key)"
    by (simp add: deleteByKey_def plates_sorted_savePlates)
qed (rule plates_sorted_savePlates plates_sorted_upsertPlate plates_sorted_migrate
    plates_sorted_importPlates saved_refreshDue_sorted plates_sorted_refreshTile
    plates_sorted_submitPlate)+

text \<open>A sample: small letters and capitals of one letter stay in their order of arrival.\<close>

lemma savePlates_sample:
  "savePlates [bare ''b'', bare ''a'', bare ''B'', bare ''0z'', bare ''A''] =
     [bare ''0z'', bare ''a'', bare ''A'', bare ''b'', bare ''B'']"
  by code_simp

subsection \<open>Checks and the history\<close>

text \<open>
  Claim C10. After \<open>markChecked\<close> the history of the record is the old history with one
  entry appended, so it is not empty; the status and the time of its last entry are the
  \<open>lastStatus\<close> and \<open>lastCheckedUtc\<close> of the record; a record without a history gets one
  with exactly one entry. The same holds after a check that succeeded or failed
  (\<open>check_and_mark\<close>).
\<close>

theorem markChecked_sync:
  "history (markChecked ts p st nt) =
     Some (history_of p @ [\<lparr>status = st, checkedUtc = ts,
        enote = (case nt of None \<Rightarrow> None | Some n \<Rightarrow> if n = [] then None else Some n)\<rparr>]) \<and>
   history_of (markChecked ts p st nt) \<noteq> [] \<and>
   lastStatus (markChecked ts p st nt) = Str (status (last (history_of (markChecked ts p st nt)))) \<and>
   lastCheckedUtc (markChecked ts p st nt) =
     Str (checkedUtc (last (history_of (markChecked ts p st nt)))) \<and>
   length (history_of (markChecked ts (p\<lparr>history := None\<rparr>) st nt)) = 1 \<and>
   history_of (check_and_mark env k p) \<noteq> [] \<and>
   lastStatus (check_and_mark env k p) = Str (status (last (history_of (check_and_mark env k p)))) \<and>
   lastCheckedUtc (check_and_mark env k p) =
     Str (checkedUtc (last (history_of (check_and_mark env k p))))"
  by (simp add: markChecked_def history_of_def check_and_mark_def Let_def split: sum.split)

subsection \<open>Loading\<close>

text \<open>
  Claim C7. \<open>loadPlates\<close> returns the empty list when reading the storage throws, when
  there is no payload or an empty one, when the payload is not valid JSON and when it
  decodes to something that is not an array; it returns the array when the payload decodes
  to one. Its result is always a list: no failure reaches the caller.
\<close>

theorem loadPlates_defensive:
  "loadPlates JSON_parse (Inl e) = [] \<and>
   loadPlates JSON_parse (Inr None) = [] \<and>
   loadPlates JSON_parse (Inr (Some [])) = [] \<and>
   (JSON_parse raw1 = SyntaxError \<longrightarrow> loadPlates JSON_parse (Inr (Some raw1)) = []) \<and>
   (JSON_parse raw2 = NonArray \<longrightarrow> loadPlates JSON_parse (Inr (Some raw2)) = []) \<and>
   (raw3 \<noteq> [] \<and> JSON_parse raw3 = Array arr \<longrightarrow> loadPlates JSON_parse (Inr (Some raw3)) = arr)"
  by (simp add: loadPlates_def)


theorem loadPlates_defensive_witness:
  "sample_parse ''[7'' = SyntaxError \<and> loadPlates sample_parse (Inr (Some ''[7'')) = [] \<and>
   sample_parse ''{}'' = NonArray \<and> loadPlates sample_parse (Inr (Some ''{}'')) = [] \<and>
   ''[7]'' \<noteq> [] \<and> sample_parse ''[7]'' = Array [7] \<and> loadPlates sample_parse (Inr (Some ''[7]'')) = [7]"
proof -
  have h1: "sample_parse ''[7'' = SyntaxError" and h2: "sample_parse ''{}'' = NonArray"
    and h3: "''[7]'' \<noteq> [] \<and> sample_parse ''[7]'' = Array [7]"
    by (simp_all add: sample_parse_def)
  from loadPlates_defensive [of sample_parse undefined "''[7''" "''{}''" "''[7]''" "[7]"] h1 h2 h3
  show ?thesis by blast
qed

subsection \<open>Validation\<close>

text \<open>
  Claim C9, as the code has it. \<open>validatePlateText\<close> throws exactly when the text
  normalizes to the empty string, and otherwise returns the normalized text. The message
  of the error is "plateText must be 1-7 letters/numbers" (with an en dash), in one word
  \<open>plateText\<close>. A submission in the add dialog writes nothing to the store exactly when its
  text is rejected.
\<close>

theorem validatePlateText_rejects_empty:
  "validatePlateText (Str s) =
     (if normalizePlateText (Str s) = []
      then Inl (JsError ''Error'' (''plateText must be 1'' @ en_dash @ ''7 letters/numbers''))
      else Inr (normalizePlateText (Str s))) \<and>
   (fst (submitPlate env stored (Str s) m_state) = None \<longleftrightarrow> normalizePlateText (Str s) = [])"
  by (simp add: validatePlateText_def submitPlate_def Let_def)

text \<open>
  Claim C9, as stated, asks for the message "plate text must be 1-7 letters/numbers": the
  text \<open>-\<close> normalizes to the empty string and is rejected with another message.
\<close>

theorem validatePlateText_message_counterexample:
  "normalizePlateText (Str ''-'') = [] \<and>
   validatePlateText (Str ''-'') \<noteq>
     Inl (JsError ''Error'' (''plate text must be 1'' @ en_dash @ ''7 letters/numbers''))"
  by code_simp

subsection \<open>Upserts and the uniqueness of keys\<close>

lemma findIndex_None: "findIndex P xs = None \<longleftrightarrow> (\<forall>x\<in>set xs. \<not> P x)"
  by (induction xs) auto

lemma findIndex_Some: "findIndex P xs = Some i \<Longrightarrow> i < length xs \<and> P (xs ! i)"
  by (induction xs arbitrary: i) (auto split: if_splits)

lemma findIndex_first: "findIndex P xs = Some i \<Longrightarrow> j < i \<Longrightarrow> \<not> P (xs ! j)"
proof (induction xs arbitrary: i j)
  case Nil
  then show ?case by simp
next
  case (Cons x xs)
  then show ?case
    by (cases j) (auto split: if_splits)
qed

lemma split_at_bar:
  "c \<notin> set x \<Longrightarrow> c \<notin> set x' \<Longrightarrow> x @ c # r = x' @ c # r' \<Longrightarrow> x = x' \<and> r = r'"
proof (induction x arbitrary: x')
  case Nil
  then show ?case by (cases x') auto
next
  case (Cons a x)
  then show ?case by (cases x') auto
qed

lemma bars_zero: "bars s = 0 \<longleftrightarrow> CHR ''|'' \<notin> set s"
  by (auto simp: bars_def filter_empty_conv)

lemma bars_join_bar:
  "xs \<noteq> [] \<Longrightarrow> bars (join_bar xs) = length xs - 1 + sum_list (map bars xs)"
  by (induction xs rule: join_bar.induct) (auto simp: bars_def)

lemma join_bar_inject:
  "length xs = length ys \<Longrightarrow> list_all (\<lambda>s. CHR ''|'' \<notin> set s) xs \<Longrightarrow>
   list_all (\<lambda>s. CHR ''|'' \<notin> set s) ys \<Longrightarrow> join_bar xs = join_bar ys \<Longrightarrow> xs = ys"
proof (induction xs ys rule: list_induct2)
  case Nil
  then show ?case by simp
next
  case (Cons x xs y ys)
  show ?case
  proof (cases xs)
    case Nil
    with Cons show ?thesis by simp
  next
    case xs: (Cons x2 xs')
    with Cons.hyps obtain y2 ys' where ys: "ys = y2 # ys'" by (cases ys) auto
    from Cons.prems xs ys have "x @ CHR ''|'' # join_bar xs = y @ CHR ''|'' # join_bar ys"
      by simp
    with Cons.prems have "x = y \<and> join_bar xs = join_bar ys"
      by (intro split_at_bar) auto
    with Cons show ?thesis by simp
  qed
qed

lemma sum_list_bars_zero:
  "sum_list (map bars xs) = 0 \<longleftrightarrow> list_all (\<lambda>s. CHR ''|'' \<notin> set s) xs"
  by (induction xs) (auto simp: bars_zero)

lemma length_key_parts: "length (key_parts p) = 7"
  by (simp add: key_parts_def)

lemma key_parts_eq_of_bar_free:
  assumes "bar_free e" and "mkKey old = mkKey e"
  shows "key_parts old = key_parts e"
proof -
  have ne: "key_parts old \<noteq> []" "key_parts e \<noteq> []"
    by (simp_all add: key_parts_def)
  have "bars (join_bar (key_parts old)) = bars (join_bar (key_parts e))"
    using assms(2) by (simp add: mkKey_def)
  then have "sum_list (map bars (key_parts old)) = sum_list (map bars (key_parts e))"
    by (simp add: bars_join_bar ne length_key_parts)
  also have "\<dots> = 0"
    using assms(1) unfolding bar_free_def by (simp only: sum_list_bars_zero)
  finally have "list_all (\<lambda>s. CHR ''|'' \<notin> set s) (key_parts old)"
    by (simp only: sum_list_bars_zero)
  with assms show ?thesis
    by (intro join_bar_inject) (simp_all add: length_key_parts bar_free_def mkKey_def)
qed

lemma or_else_over: "or_else old d = or_else new d \<Longrightarrow> or_else (over old new) d = or_else new d"
  by (simp add: over_def)

lemma or_else_over_upper:
  "toUpperCase (or_else old d) = toUpperCase (or_else new d) \<Longrightarrow>
   toUpperCase (or_else (over old new) d) = toUpperCase (or_else new d)"
  by (simp add: over_def)

lemma over_defined: "new \<noteq> Undefined \<Longrightarrow> over old new = new"
  by (simp add: over_def)

lemma key_parts_spread_same:
  "key_parts old = key_parts e \<Longrightarrow> key_parts (spread old e) = key_parts e"
  by (simp add: key_parts_def spread_def or_else_over or_else_over_upper)

lemma key_parts_spread_complete:
  "complete e \<Longrightarrow> key_parts (spread old e) = key_parts e"
  by (simp add: key_parts_def spread_def over_defined complete_def)

lemma mkKey_spread:
  assumes safe: "complete e \<or> bar_free e" and same: "mkKey old = mkKey e"
  shows "mkKey (spread old e) = mkKey e"
proof -
  from safe have "key_parts (spread old e) = key_parts e"
  proof
    assume "complete e"
    then show ?thesis by (rule key_parts_spread_complete)
  next
    assume "bar_free e"
    then have "key_parts old = key_parts e"
      using same by (rule key_parts_eq_of_bar_free)
    then show ?thesis by (rule key_parts_spread_same)
  qed
  then show ?thesis by (simp only: mkKey_def)
qed

lemma distinct_keys_savePlates:
  "distinct (map mkKey (savePlates xs)) \<longleftrightarrow> distinct (map mkKey xs)"
  by (simp add: savePlates_def distinct_map_array_sort)

lemma upsertPlate_keeps_distinct:
  assumes d: "distinct (map mkKey stored)" and safe: "complete e \<or> bar_free e"
  shows "distinct (map mkKey (upsertPlate stored e))"
proof (cases "findIndex (\<lambda>p. mkKey p = mkKey e) stored")
  case None
  then have "mkKey e \<notin> set (map mkKey stored)"
    by (auto simp: findIndex_None)
  with d None show ?thesis
    by (simp add: upsertPlate_def distinct_keys_savePlates)
next
  case (Some i)
  then have i: "i < length stored" "mkKey (stored ! i) = mkKey e"
    by (auto dest: findIndex_Some)
  then have "mkKey (spread (stored ! i) e) = mkKey (stored ! i)"
    using safe by (simp add: mkKey_spread)
  then have "map mkKey (stored[i := spread (stored ! i) e]) = map mkKey stored"
    by (simp add: map_update list_update_same_conv i)
  with d Some show ?thesis
    by (simp add: upsertPlate_def distinct_keys_savePlates)
qed

lemma foldl_upsertPlate_distinct:
  "distinct (map mkKey stored) \<Longrightarrow> list_all (\<lambda>e. complete e \<or> bar_free e) entries \<Longrightarrow>
   distinct (map mkKey (foldl upsertPlate stored entries))"
  by (induction entries arbitrary: stored) (auto simp: upsertPlate_keeps_distinct)

lemma upsertPlate_append:
  "mkKey e \<notin> set (map mkKey stored) \<Longrightarrow> upsertPlate stored e = savePlates (stored @ [e])"
proof -
  assume "mkKey e \<notin> set (map mkKey stored)"
  then have "findIndex (\<lambda>p. mkKey p = mkKey e) stored = None"
    unfolding findIndex_None by (metis image_eqI list.set_map)
  then show ?thesis by (simp add: upsertPlate_def)
qed

lemma upsertPlate_merge:
  assumes d: "distinct (map mkKey stored)" and i: "i < length stored" "mkKey (stored ! i) = mkKey e"
  shows "upsertPlate stored e = savePlates (stored[i := spread (stored ! i) e])"
proof -
  from i have "\<not> (\<forall>x\<in>set stored. mkKey x \<noteq> mkKey e)"
    using nth_mem by blast
  then obtain j where j: "findIndex (\<lambda>p. mkKey p = mkKey e) stored = Some j"
    by (cases "findIndex (\<lambda>p. mkKey p = mkKey e) stored") (auto simp: findIndex_None)
  then have "j < length stored" "mkKey (stored ! j) = mkKey e"
    by (auto dest: findIndex_Some)
  with d i have "map mkKey stored ! j = map mkKey stored ! i" "j < length (map mkKey stored)"
      "i < length (map mkKey stored)"
    by simp_all
  with nth_eq_iff_index_eq [OF d, of j i] have "j = i"
    by simp
  with j show ?thesis by (simp add: upsertPlate_def)
qed

text \<open>
  Claim C3, as the code has it. Start from a store in which no two records have the same
  key, and upsert any sequence of entries each of which is complete (it has all seven
  properties that the key reads) or has no separator \<open>|\<close> in the parts of its key: no two
  records of the resulting store have the same key. An upsert whose key is not in the
  store appends the entry; an upsert whose key is the key of the record at position \<open>i\<close>
  puts there the spread of that record and the entry, in which the properties of the
  entry win; the collection is then saved.
\<close>

theorem upsertPlate_keys_unique:
  assumes "distinct (map mkKey stored)"
    and "list_all (\<lambda>e. complete e \<or> bar_free e) entries"
  shows "distinct (map mkKey (foldl upsertPlate stored entries)) \<and>
    (mkKey e1 \<notin> set (map mkKey stored) \<longrightarrow> upsertPlate stored e1 = savePlates (stored @ [e1])) \<and>
    (i < length stored \<and> mkKey (stored ! i) = mkKey e2 \<longrightarrow>
       upsertPlate stored e2 = savePlates (stored[i := spread (stored ! i) e2]))"
  using assms
  by (simp add: foldl_upsertPlate_distinct upsertPlate_append upsertPlate_merge)

theorem upsertPlate_keys_unique_witness:
  "distinct (map mkKey [bare ''A'', bare ''B'']) \<and>
   list_all (\<lambda>e. complete e \<or> bar_free e) [new_entry ''B'' (Str ''CA''), bare ''b'', collide_second] \<and>
   distinct (map mkKey (foldl upsertPlate [bare ''A'', bare ''B'']
      [new_entry ''B'' (Str ''CA''), bare ''b'', collide_second])) \<and>
   mkKey (bare ''C'') \<notin> set (map mkKey [bare ''A'', bare ''B'']) \<and>
   upsertPlate [bare ''A'', bare ''B''] (bare ''C'') = savePlates ([bare ''A'', bare ''B''] @ [bare ''C'']) \<and>
   (1::nat) < length [bare ''A'', bare ''B''] \<and>
   mkKey ([bare ''A'', bare ''B''] ! 1) = mkKey (new_entry ''B'' Undefined) \<and>
   upsertPlate [bare ''A'', bare ''B''] (new_entry ''B'' Undefined) =
     savePlates ([bare ''A'', bare ''B''][1 := spread ([bare ''A'', bare ''B''] ! 1) (new_entry ''B'' Undefined)])"
proof -
  have h1: "distinct (map mkKey [bare ''A'', bare ''B''])"
    by code_simp
  have h2: "list_all (\<lambda>e. complete e \<or> bar_free e)
      [new_entry ''B'' (Str ''CA''), bare ''b'', collide_second]"
    by code_simp
  have h3: "mkKey (bare ''C'') \<notin> set (map mkKey [bare ''A'', bare ''B''])"
    by code_simp
  have h4: "(1::nat) < length [bare ''A'', bare ''B''] \<and>
      mkKey ([bare ''A'', bare ''B''] ! 1) = mkKey (new_entry ''B'' Undefined)"
    by code_simp
  from upsertPlate_keys_unique [OF h1 h2, of "bare ''C''" 1 "new_entry ''B'' Undefined"] h1 h2 h3 h4
  show ?thesis by blast
qed

text \<open>
  Claim C3, as stated for arbitrary entries, fails: the entry \<open>collide_entry\<close> has only a
  plate text, \<open>A|B\<close>, and its key is the key of \<open>collide_first\<close> (plate text \<open>A\<close>, state
  \<open>B\<close>, and so on). The merge keeps the other properties of \<open>collide_first\<close> and takes the
  plate text of the entry, which is the identity of \<open>collide_second\<close>: the store then has
  two records with one key.
\<close>

theorem upsertPlate_key_collision:
  "distinct (map mkKey [collide_first, collide_second]) \<and>
   \<not> distinct (map mkKey (upsertPlate [collide_first, collide_second] collide_entry))"
  by code_simp

subsection \<open>Deleting\<close>






subsection \<open>Forced refresh runs\<close>

lemma plateText_check_and_mark: "plateText (check_and_mark env k p) = plateText p"
  by (simp add: check_and_mark_def markChecked_def Let_def split: sum.split)

lemma length_checked_upto: "length (checked_upto env stored j) = length stored"
  by (simp add: checked_upto_def)

lemma nth_checked_upto:
  "k < length stored \<Longrightarrow>
   checked_upto env stored j ! k = (if k < j then check_and_mark env k (stored ! k) else stored ! k)"
  by (simp add: checked_upto_def)

lemma checked_upto_0: "checked_upto env stored 0 = stored"
  by (simp add: checked_upto_def map_nth)

lemma plateText_checked_upto: "map plateText (checked_upto env stored j) = map plateText stored"
  by (rule nth_equalityI)
    (simp_all add: length_checked_upto nth_checked_upto plateText_check_and_mark)

lemma plates_sorted_checked_upto:
  "plates_sorted stored \<Longrightarrow> plates_sorted (checked_upto env stored j)"
  using plates_sorted_same_text [OF plateText_checked_upto] by blast

lemma checked_upto_Suc:
  "k < length stored \<Longrightarrow>
   (checked_upto env stored k)[k := check_and_mark env k (checked_upto env stored k ! k)] =
     checked_upto env stored (Suc k)"
  by (rule nth_equalityI)
    (auto simp: length_checked_upto nth_checked_upto nth_list_update less_Suc_eq)

lemma sorted_addresses:
  assumes "plates_sorted h"
  shows "array_sort (\<lambda>x y. comparePlates (h ! x) (h ! y)) [0..<length h] = [0..<length h]"
proof (rule array_sort_sorted_id)
  have "sorted_wrt (\<lambda>a b. comparePlates a b \<le> 0) (map (\<lambda>x. h ! x) [0..<length h])"
    using assms by (simp add: map_nth plates_sorted_cmp)
  then show "sorted_wrt (\<lambda>x y. comparePlates (h ! x) (h ! y) \<le> 0) [0..<length h]"
    by (simp add: sorted_wrt_map)
qed

lemma loop_body_after_checks:
  assumes s: "plates_sorted stored" and k: "k < length stored"
  shows "loop_body env (length stored) k (after_checks env stored k) =
         after_checks env stored (Suc k)"
proof -
  let ?h = "checked_upto env stored (Suc k)"
  have len: "length ?h = length stored"
    by (rule length_checked_upto)
  have srt: "array_sort (\<lambda>x y. comparePlates (?h ! x) (?h ! y)) [0..<length stored] =
             [0..<length stored]"
    using sorted_addresses [OF plates_sorted_checked_upto [OF s, of env "Suc k"]]
    by (simp only: len)
  have col: "map (\<lambda>a. ?h ! a) [0..<length stored] = ?h"
    using map_nth [of ?h] by (simp only: len)
  show ?thesis
    by (simp add: loop_body_def save_all_def after_checks_def Let_def
        checked_upto_Suc [OF k] srt col)
qed

lemma for_of_after_checks:
  assumes s: "plates_sorted stored"
  shows "k \<le> length stored \<Longrightarrow>
         for_of env SameAsAll k (after_checks env stored k) = after_checks env stored (length stored)"
proof (induction "length stored - k" arbitrary: k)
  case 0
  then have "k = length stored" by simp
  then show ?case
    by (subst for_of.simps) (simp add: targets_of_def after_checks_def)
next
  case (Suc d)
  then have k: "k < length stored" by simp
  have ts: "targets_of SameAsAll (after_checks env stored k) = [0..<length stored]"
    by (simp add: targets_of_def after_checks_def)
  have "for_of env SameAsAll k (after_checks env stored k) =
        for_of env SameAsAll (Suc k) (loop_body env (length stored) k (after_checks env stored k))"
    by (subst for_of.simps) (simp add: ts k Let_def)
  also have "\<dots> = for_of env SameAsAll (Suc k) (after_checks env stored (Suc k))"
    by (simp only: loop_body_after_checks [OF s k])
  also have "\<dots> = after_checks env stored (length stored)"
    using Suc.hyps(2) k by (intro Suc.hyps(1)) simp_all
  finally show ?case .
qed

lemma refreshDue_forced_state:
  assumes btn: "refreshBtn env" and ne: "stored \<noteq> []" and s: "plates_sorted stored"
  shows "refreshDue cal env True stored =
         (after_checks env stored (length stored))
           \<lparr>shown := shown (after_checks env stored (length stored)) @ [Done]\<rparr>"
proof -
  have st0: "\<lparr>heap = stored, all_arr = [0..<length stored], saved = [],
               shown = [Progress 0 (length stored)], i_count = 0\<rparr> = after_checks env stored 0"
    by (simp add: after_checks_def checked_upto_0)
  show ?thesis
    using btn ne
    by (simp add: refreshDue_def Let_def targets_of_def st0 for_of_after_checks [OF s])
qed

lemma check_and_mark_cases:
  "(case checkAvailability env k p of
      Inr st \<Rightarrow>
        check_and_mark env k p =
          p\<lparr>lastStatus := Str st, lastCheckedUtc := Str (toISOString_now env k),
            history := Some (history_of p @
              [\<lparr>status = st, checkedUtc = toISOString_now env k, enote = None\<rparr>])\<rparr>
    | Inl e \<Rightarrow>
        check_and_mark env k p =
          p\<lparr>lastStatus := Str ''Error'', lastCheckedUtc := Str (toISOString_now env k),
            history := Some (history_of p @
              [\<lparr>status = ''Error'', checkedUtc = toISOString_now env k,
                enote = (if message e \<noteq> [] then Some (message e)
                         else if ename e = [] then None else Some (ename e))\<rparr>])\<rparr>)"
  by (cases "checkAvailability env k p")
    (simp_all add: check_and_mark_def markChecked_def error_note_def error_toString_def)

text \<open>
  A forced run over a store in the order of the spec, which is the order of every
  collection the code writes, does what claim C1 says. Take a forced run on a page that has
  the refresh button, over a stored collection that is not empty and is in that order.
  Then every record is checked exactly once, the \<open>k\<close>-th record by the \<open>k\<close>-th check: its
  history gets one more entry. When the check returns a status, the entry carries it and
  \<open>lastStatus\<close> and \<open>lastCheckedUtc\<close> are set to the status and the time of the entry; when
  the check throws, the entry has the status \<open>Error\<close> and the text of
  \<^verbatim>\<open>String(e?.message||e)\<close> as its note, which is the message of the error when it has
  one. After each record the whole collection is saved, with the records checked so far;
  the progress shown is \<open>0/n\<close>, then \<open>1/n\<close> up to \<open>n/n\<close>, then \<open>Done\<close>. A check that throws
  does not end the run.
\<close>

lemma refreshDue_forced:
  assumes btn: "refreshBtn env" and ne: "stored \<noteq> []" and s: "plates_sorted stored"
  shows
    "collection (refreshDue cal env True stored) =
       map (\<lambda>k. check_and_mark env k (stored ! k)) [0..<length stored] \<and>
     saved (refreshDue cal env True stored) =
       map (checked_upto env stored) [1..<Suc (length stored)] \<and>
     list_all (\<lambda>c. length c = length stored) (saved (refreshDue cal env True stored)) \<and>
     shown (refreshDue cal env True stored) =
       Progress 0 (length stored) #
       map (\<lambda>i. Progress i (length stored)) [1..<Suc (length stored)] @ [Done] \<and>
     (\<forall>k<length stored.
        case checkAvailability env k (stored ! k) of
          Inr st \<Rightarrow>
            check_and_mark env k (stored ! k) =
              (stored ! k)\<lparr>lastStatus := Str st, lastCheckedUtc := Str (toISOString_now env k),
                history := Some (history_of (stored ! k) @
                  [\<lparr>status = st, checkedUtc = toISOString_now env k, enote = None\<rparr>])\<rparr>
        | Inl e \<Rightarrow>
            check_and_mark env k (stored ! k) =
              (stored ! k)\<lparr>lastStatus := Str ''Error'',
                lastCheckedUtc := Str (toISOString_now env k),
                history := Some (history_of (stored ! k) @
                  [\<lparr>status = ''Error'', checkedUtc = toISOString_now env k,
                    enote = (if message e \<noteq> [] then Some (message e)
                             else if ename e = [] then None else Some (ename e))\<rparr>])\<rparr>)"
proof -
  let ?n = "length stored"
  have run: "refreshDue cal env True stored =
      (after_checks env stored ?n)\<lparr>shown := shown (after_checks env stored ?n) @ [Done]\<rparr>"
    by (rule refreshDue_forced_state [OF btn ne s])
  have all: "checked_upto env stored ?n = map (\<lambda>k. check_and_mark env k (stored ! k)) [0..<?n]"
    by (simp add: checked_upto_def)
  have col: "map (\<lambda>a. checked_upto env stored ?n ! a) [0..<?n] = checked_upto env stored ?n"
    using map_nth [of "checked_upto env stored ?n"] by (simp only: length_checked_upto)
  have 1: "collection (refreshDue cal env True stored) =
      map (\<lambda>k. check_and_mark env k (stored ! k)) [0..<?n]"
    by (simp add: run collection_def after_checks_def col) (simp only: all)
  have 2: "saved (refreshDue cal env True stored) = map (checked_upto env stored) [1..<Suc ?n]"
    by (simp add: run after_checks_def)
  have 3: "shown (refreshDue cal env True stored) =
      Progress 0 ?n # map (\<lambda>i. Progress i ?n) [1..<Suc ?n] @ [Done]"
    by (simp add: run after_checks_def)
  have 4: "list_all (\<lambda>c. length c = length stored) (saved (refreshDue cal env True stored))"
    by (simp add: 2 list_all_iff length_checked_upto)
  from 1 2 3 4 show ?thesis
    by (simp only: check_and_mark_cases simp_thms)
qed

lemma refreshDue_forced_sample:
  "refreshBtn sample_remote \<and> sample_store \<noteq> [] \<and> plates_sorted sample_store \<and>
   shown (refreshDue utc_calendar sample_remote True sample_store) =
     [Progress 0 3, Progress 1 3, Progress 2 3, Progress 3 3, Done] \<and>
   map lastStatus (collection (refreshDue utc_calendar sample_remote True sample_store)) =
     [Str ''Available'', Str ''Error'', Str ''Unavailable''] \<and>
   map (\<lambda>p. length (history_of p))
     (collection (refreshDue utc_calendar sample_remote True sample_store)) = [1, 1, 1] \<and>
   length (saved (refreshDue utc_calendar sample_remote True sample_store)) = 3"
proof -
  have h: "refreshBtn sample_remote" "sample_store \<noteq> []" "plates_sorted sample_store"
    by code_simp+
  note run = refreshDue_forced [OF h, of utc_calendar]
  have e1: "Progress 0 (length sample_store) #
      map (\<lambda>i. Progress i (length sample_store)) [1..<Suc (length sample_store)] @ [Done] =
      [Progress 0 3, Progress 1 3, Progress 2 3, Progress 3 3, Done]"
    by code_simp
  have e2: "map lastStatus
      (map (\<lambda>k. check_and_mark sample_remote k (sample_store ! k)) [0..<length sample_store]) =
      [Str ''Available'', Str ''Error'', Str ''Unavailable'']"
    by code_simp
  have e3: "map (\<lambda>p. length (history_of p))
      (map (\<lambda>k. check_and_mark sample_remote k (sample_store ! k)) [0..<length sample_store]) =
      [1, 1, 1]"
    by code_simp
  have e4: "length (map (checked_upto sample_remote sample_store) [1..<Suc (length sample_store)]) = 3"
    by code_simp
  from run e1 e2 e3 e4 h show ?thesis
    by (simp only: simp_thms)
qed


subsection \<open>Due policy\<close>

text \<open>
  Claim C2, as the code has it. Under \<open>isDue\<close> of \<^verbatim>\<open>vanity-monitor/app.js\<close> a record is
  due exactly when it was never checked (\<open>lastCheckedUtc\<close> is missing, null or empty), or
  the text of its last check does not parse as a date, or the month or the year of the
  last check differs from that of the current time. So a record checked in one month is
  due at any time of the next month, the first day included, and a record is not due at a
  time in the month and year of its check, such as later on the day of the check. Under
  the \<open>isDue\<close> of the older copy of the script a record is due exactly when it was never
  checked, or the text of its last check does not parse, or 24 hours have passed since the
  last check.
\<close>

theorem isDue_policy:
  "(isDue cal now p \<longleftrightarrow>
      \<not> truthy (lastCheckedUtc p) \<or>
      (\<exists>s. lastCheckedUtc p = Str s \<and> Date_parse cal s = None) \<or>
      (\<exists>s t. lastCheckedUtc p = Str s \<and> Date_parse cal s = Some t \<and>
         (getMonth cal t \<noteq> getMonth cal now \<or> getFullYear cal t \<noteq> getFullYear cal now))) \<and>
   (ts1 \<noteq> [] \<and> Date_parse cal ts1 = Some t1 \<and>
      getMonth cal now1 = (getMonth cal t1 + 1) mod 12 \<longrightarrow>
      isDue cal now1 (markChecked ts1 q st nt)) \<and>
   (ts2 \<noteq> [] \<and> Date_parse cal ts2 = Some t2 \<and>
      getMonth cal now2 = getMonth cal t2 \<and> getFullYear cal now2 = getFullYear cal t2 \<longrightarrow>
      \<not> isDue cal now2 (markChecked ts2 q st nt)) \<and>
   (isDue_rolling cal now p \<longleftrightarrow>
      \<not> truthy (lastCheckedUtc p) \<or>
      (\<exists>s. lastCheckedUtc p = Str s \<and> Date_parse cal s = None) \<or>
      (\<exists>s t. lastCheckedUtc p = Str s \<and> Date_parse cal s = Some t \<and> 86400000 \<le> now - t))"
proof (intro conjI impI)
  show "isDue cal now p \<longleftrightarrow>
      \<not> truthy (lastCheckedUtc p) \<or>
      (\<exists>s. lastCheckedUtc p = Str s \<and> Date_parse cal s = None) \<or>
      (\<exists>s t. lastCheckedUtc p = Str s \<and> Date_parse cal s = Some t \<and>
         (getMonth cal t \<noteq> getMonth cal now \<or> getFullYear cal t \<noteq> getFullYear cal now))"
    by (cases "lastCheckedUtc p") (auto simp: isDue_def truthy_def split: option.splits)
  show "isDue_rolling cal now p \<longleftrightarrow>
      \<not> truthy (lastCheckedUtc p) \<or>
      (\<exists>s. lastCheckedUtc p = Str s \<and> Date_parse cal s = None) \<or>
      (\<exists>s t. lastCheckedUtc p = Str s \<and> Date_parse cal s = Some t \<and> 86400000 \<le> now - t)"
    by (cases "lastCheckedUtc p") (auto simp: isDue_rolling_def truthy_def split: option.splits)
next
  assume a: "ts1 \<noteq> [] \<and> Date_parse cal ts1 = Some t1 \<and>
      getMonth cal now1 = (getMonth cal t1 + 1) mod 12"
  then have "getMonth cal t1 \<noteq> getMonth cal now1"
    by presburger
  with a show "isDue cal now1 (markChecked ts1 q st nt)"
    by (simp add: isDue_def markChecked_def)
next
  assume "ts2 \<noteq> [] \<and> Date_parse cal ts2 = Some t2 \<and>
      getMonth cal now2 = getMonth cal t2 \<and> getFullYear cal now2 = getFullYear cal t2"
  then show "\<not> isDue cal now2 (markChecked ts2 q st nt)"
    by (simp add: isDue_def markChecked_def)
qed

theorem isDue_policy_witness:
  "''2024-01-31T23:59:59.999Z'' \<noteq> [] \<and>
   Date_parse utc_calendar ''2024-01-31T23:59:59.999Z'' = Some 1706745599999 \<and>
   getMonth utc_calendar 1706745600000 = (getMonth utc_calendar 1706745599999 + 1) mod 12 \<and>
   isDue utc_calendar 1706745600000
     (markChecked ''2024-01-31T23:59:59.999Z'' (bare ''A'') ''Available'' None) \<and>
   ''2024-02-01T00:00:00.000Z'' \<noteq> [] \<and>
   Date_parse utc_calendar ''2024-02-01T00:00:00.000Z'' = Some 1706745600000 \<and>
   getMonth utc_calendar 1706831999999 = getMonth utc_calendar 1706745600000 \<and>
   getFullYear utc_calendar 1706831999999 = getFullYear utc_calendar 1706745600000 \<and>
   \<not> isDue utc_calendar 1706831999999
     (markChecked ''2024-02-01T00:00:00.000Z'' (bare ''A'') ''Available'' None)"
proof -
  have h1: "''2024-01-31T23:59:59.999Z'' \<noteq> [] \<and>
      Date_parse utc_calendar ''2024-01-31T23:59:59.999Z'' = Some 1706745599999 \<and>
      getMonth utc_calendar 1706745600000 = (getMonth utc_calendar 1706745599999 + 1) mod 12"
    by code_simp
  have h2: "''2024-02-01T00:00:00.000Z'' \<noteq> [] \<and>
      Date_parse utc_calendar ''2024-02-01T00:00:00.000Z'' = Some 1706745600000 \<and>
      getMonth utc_calendar 1706831999999 = getMonth utc_calendar 1706745600000 \<and>
      getFullYear utc_calendar 1706831999999 = getFullYear utc_calendar 1706745600000"
    by code_simp
  from isDue_policy [of utc_calendar 0 "bare ''A''" "''2024-01-31T23:59:59.999Z''" 1706745599999
      1706745600000 "bare ''A''" "''Available''" None "''2024-02-01T00:00:00.000Z''" 1706745600000
      1706831999999] h1 h2
  show ?thesis by blast
qed

text \<open>
  Claim C2, as stated, fails of the \<open>isDue\<close> of the older copy. A record checked in the
  last millisecond of January is not due there one millisecond later, on the first day of
  February, though the month differs; and a record checked at the start of the first of
  February is due there a day later, in the same month and year.
\<close>

theorem isDue_rolling_differs:
  "Date_parse utc_calendar ''2024-01-31T23:59:59.999Z'' = Some 1706745599999 \<and>
   getMonth utc_calendar 1706745599999 = 0 \<and>
   getMonth utc_calendar 1706745600000 = 1 \<and>
   isDue utc_calendar 1706745600000
     (markChecked ''2024-01-31T23:59:59.999Z'' (bare ''A'') ''Available'' None) \<and>
   \<not> isDue_rolling utc_calendar 1706745600000
     (markChecked ''2024-01-31T23:59:59.999Z'' (bare ''A'') ''Available'' None) \<and>
   Date_parse utc_calendar ''2024-02-01T00:00:00.000Z'' = Some 1706745600000 \<and>
   getMonth utc_calendar 1706832000000 = 1 \<and>
   getFullYear utc_calendar 1706832000000 = getFullYear utc_calendar 1706745600000 \<and>
   \<not> isDue utc_calendar 1706832000000
     (markChecked ''2024-02-01T00:00:00.000Z'' (bare ''A'') ''Available'' None) \<and>
   isDue_rolling utc_calendar 1706832000000
     (markChecked ''2024-02-01T00:00:00.000Z'' (bare ''A'') ''Available'' None)"
  by code_simp

end
